theory Spec2Isabelle
  imports Complex_Main
begin

section \<open>Python values used by the request handler\<close>

text \<open>
  The program is \<^verbatim>\<open>app.py\<close>: a Flask handler \<^verbatim>\<open>predict\<close> that stores an
  uploaded or downloaded image and hands it to \<^verbatim>\<open>run_yolo\<close>. Python strings are
  modelled as \<^typ>\<open>string\<close>, each \<^typ>\<open>char\<close> standing for one code point below 256;
  byte strings have the same representation. Python floats are modelled by the real
  number they denote.
\<close>

type_synonym bytes = "char list"

datatype py_error =
  IndexError | KeyError | FileNotFoundError | EngineError string | Cv2Error
  | OtherError string

subsection \<open>\<^verbatim>\<open>str(n)\<close> and \<^verbatim>\<open>int(x)\<close>\<close>

fun digits :: "nat \<Rightarrow> string" where
  "digits n =
     (if n < 10 then [char_of (48 + n)]
      else digits (n div 10) @ [char_of (48 + n mod 10)])"

declare digits.simps [simp del]

definition str_int :: "int \<Rightarrow> string" where
  "str_int i = (if i < 0 then CHR ''-'' # digits (nat (- i)) else digits (nat i))"

text \<open>\<^verbatim>\<open>int(x)\<close> on a float truncates towards zero.\<close>

definition py_int :: "real \<Rightarrow> int" where
  "py_int x = (if 0 \<le> x then \<lfloor>x\<rfloor> else \<lceil>x\<rceil>)"

subsection \<open>\<^verbatim>\<open>round(x, ndigits)\<close>\<close>

text \<open>
  Python rounds the exact value of the float to \<open>ndigits\<close> decimals, ties going to the
  even neighbour. The result is the decimal value itself here; its conversion back to
  the nearest double is outside the model.
\<close>

definition round_half_even :: "real \<Rightarrow> int" where
  "round_half_even s =
     (let f = \<lfloor>s\<rfloor>; d = s - of_int f in
      if d < 1 / 2 then f
      else if 1 / 2 < d then f + 1
      else if even f then f else f + 1)"

definition py_round :: "real \<Rightarrow> nat \<Rightarrow> real" where
  "py_round x ndigits = of_int (round_half_even (x * 10 ^ ndigits)) / 10 ^ ndigits"

subsection \<open>String methods\<close>

text \<open>\<^verbatim>\<open>str.isspace\<close> for code points below 256.\<close>

definition is_space :: "char \<Rightarrow> bool" where
  "is_space c =
     (let n = (of_char c :: nat) in
      (9 \<le> n \<and> n \<le> 13) \<or> (28 \<le> n \<and> n \<le> 32) \<or> n = 133 \<or> n = 160)"

definition strip :: "string \<Rightarrow> string" where
  "strip s = rev (dropWhile is_space (rev (dropWhile is_space s)))"

definition lower_char :: "char \<Rightarrow> char" where
  "lower_char c =
     (let n = (of_char c :: nat) in
      if (65 \<le> n \<and> n \<le> 90) \<or> (192 \<le> n \<and> n \<le> 222 \<and> n \<noteq> 215)
      then char_of (n + 32) else c)"

definition lower :: "string \<Rightarrow> string" where
  "lower s = map lower_char s"

definition startswith :: "string \<Rightarrow> string \<Rightarrow> bool" where
  "startswith s p = (take (length p) s = p)"

text \<open>\<^verbatim>\<open>s.rfind(c)\<close>: the index of the last \<open>c\<close>, or \<open>-1\<close>.\<close>

definition rfind :: "string \<Rightarrow> char \<Rightarrow> int" where
  "rfind s c =
     (if c \<in> set s
      then int (length s) - 1 - int (length (takeWhile (\<lambda>x. x \<noteq> c) (rev s)))
      else - 1)"

text \<open>\<^verbatim>\<open>s.rsplit(c, 1)\<close>: split once, at the last \<open>c\<close>.\<close>

definition rsplit1 :: "string \<Rightarrow> char \<Rightarrow> string list" where
  "rsplit1 s c =
     (if c \<in> set s
      then [take (nat (rfind s c)) s, drop (nat (rfind s c) + 1) s]
      else [s])"

text \<open>\<^verbatim>\<open>s.split(c)[0]\<close>: the text before the first \<open>c\<close>.\<close>

definition split_first :: "string \<Rightarrow> char \<Rightarrow> string" where
  "split_first s c = takeWhile (\<lambda>x. x \<noteq> c) s"

subsection \<open>Paths\<close>

text \<open>
  A \<^verbatim>\<open>pathlib.Path\<close> is its directory and its final component. \<^verbatim>\<open>stem\<close> and
  \<^verbatim>\<open>suffix\<close> are those of CPython's \<^verbatim>\<open>PurePath\<close>.
\<close>

record path =
  parent :: string
  name :: string

definition suffix :: "path \<Rightarrow> string" where
  "suffix p =
     (let i = rfind (name p) (CHR ''.'') in
      if 0 < i \<and> i < int (length (name p)) - 1 then drop (nat i) (name p) else [])"

definition stem :: "path \<Rightarrow> string" where
  "stem p =
     (let i = rfind (name p) (CHR ''.'') in
      if 0 < i \<and> i < int (length (name p)) - 1 then take (nat i) (name p) else name p)"

text \<open>
  \<^verbatim>\<open>os.path.splitext\<close> (POSIX): the extension starts at the last dot of the last
  component, unless only dots precede it there.
\<close>

definition splitext :: "string \<Rightarrow> string \<times> string" where
  "splitext p =
     (let sepIndex = rfind p (CHR ''/'');
          dotIndex = rfind p (CHR ''.'');
          between = take (nat (dotIndex - (sepIndex + 1))) (drop (nat (sepIndex + 1)) p)
      in if sepIndex < dotIndex \<and> filter (\<lambda>x. x \<noteq> CHR ''.'') between \<noteq> []
         then (take (nat dotIndex) p, drop (nat dotIndex) p)
         else (p, []))"

section \<open>Configuration\<close>

definition ALLOWED_EXTS :: "string set" where
  "ALLOWED_EXTS = {''jpg'', ''jpeg'', ''png'', ''bmp''}"

definition ALLOWED_MIME_TO_EXT :: "string \<rightharpoonup> string" where
  "ALLOWED_MIME_TO_EXT =
     map_of [(''image/jpeg'', ''jpg''), (''image/png'', ''png''), (''image/bmp'', ''bmp'')]"

definition MAX_DOWNLOAD_BYTES :: nat where
  "MAX_DOWNLOAD_BYTES = 5 * 1024 * 1024"

text \<open>\<^verbatim>\<open>UPLOAD_DIR\<close>, relative to the directory of the application.\<close>

definition UPLOAD_DIR :: string where
  "UPLOAD_DIR = ''static/uploads''"

text \<open>
  \<^verbatim>\<open>UPLOAD_DIR / unique\<close>. The names joined here are flat (the sanitised upload name,
  or \<^verbatim>\<open>url_<time>.<ext>\<close>), so the result has \<open>UPLOAD_DIR\<close> as its directory.
\<close>

definition in_upload_dir :: "string \<Rightarrow> path" where
  "in_upload_dir unique = \<lparr>parent = UPLOAD_DIR, name = unique\<rparr>"

section \<open>The world outside the handler\<close>

subsection \<open>Files and the network\<close>

text \<open>
  The state is the content of the file system together with a log of the effects the
  handler has caused: every HTTP request issued, every chunk taken from the body of a
  response (with its length), every file created or opened for writing, every file
  removed.
\<close>

datatype event = Fetch string | Chunk nat | Write path | Remove path

record world =
  files :: "path \<rightharpoonup> bytes"
  log :: "event list"

definition write_file :: "path \<Rightarrow> bytes \<Rightarrow> world \<Rightarrow> world" where
  "write_file p content w = w\<lparr>files := (files w)(p \<mapsto> content), log := log w @ [Write p]\<rparr>"

definition append_file :: "path \<Rightarrow> bytes \<Rightarrow> world \<Rightarrow> world" where
  "append_file p chunk w =
     w\<lparr>files := (files w)(p \<mapsto> (case files w p of None \<Rightarrow> chunk | Some old \<Rightarrow> old @ chunk))\<rparr>"

definition remove_file :: "path \<Rightarrow> world \<Rightarrow> world" where
  "remove_file p w = w\<lparr>files := (files w)(p := None), log := log w @ [Remove p]\<rparr>"

definition fetches :: "world \<Rightarrow> string list" where
  "fetches w = concat (map (\<lambda>e. case e of Fetch u \<Rightarrow> [u] | _ \<Rightarrow> []) (log w))"


text \<open>
  A response: its status code and reason phrase, the URL it came from, its
  \<^verbatim>\<open>Content-Type\<close> header (if any), the chunks \<^verbatim>\<open>iter_content\<close> yields, and the
  message of the \<^verbatim>\<open>RequestException\<close> that ends the stream early (if any).
\<close>

record response =
  status_code :: nat
  reason :: string
  final_url :: string
  content_type :: "string option"
  chunks :: "bytes list"
  stream_error :: "string option"

text \<open>
  What \<^verbatim>\<open>requests.get(url, stream=True, timeout=6)\<close> gives: a
  \<^verbatim>\<open>RequestException\<close> with its message, an exception of another class (one the
  handler's \<^verbatim>\<open>except\<close> clause does not catch), or a response.
\<close>

datatype fetch = RequestException string | OtherException string | Response response

text \<open>
  \<^verbatim>\<open>r.raise_for_status()\<close> of Requests: the message of the \<^verbatim>\<open>HTTPError\<close> (a
  \<^verbatim>\<open>RequestException\<close>) it raises for a status from 400 to 599, \<open>None\<close> when it
  returns.
\<close>

definition raise_for_status :: "response \<Rightarrow> string option" where
  "raise_for_status r =
     (if 400 \<le> status_code r \<and> status_code r < 500
      then Some (str_int (int (status_code r)) @ '' Client Error: '' @ reason r @
                 '' for url: '' @ final_url r)
      else if 500 \<le> status_code r \<and> status_code r < 600
      then Some (str_int (int (status_code r)) @ '' Server Error: '' @ reason r @
                 '' for url: '' @ final_url r)
      else None)"

subsection \<open>The detection engine\<close>

text \<open>
  \<^verbatim>\<open>res.names\<close> is indexed and measured by the handler; Ultralytics gives a dict
  from class index to label, a list behaves alike. A dict is the list of its items.
\<close>

datatype py_names = PyNone | PyList "string list" | PyDict "(int \<times> string) list"

record box =
  b_cls :: real
  b_conf :: real
  b_xyxy :: "real \<times> real \<times> real \<times> real"

record yolo_result =
  names :: py_names
  boxes :: "box list option"
  plot :: bytes

text \<open>
  What \<^verbatim>\<open>cv2.imwrite(path, img)\<close> does: it raises (no writer for the extension), it
  returns \<^verbatim>\<open>False\<close> and writes nothing (the file cannot be opened), or it returns
  \<^verbatim>\<open>True\<close> and has written the encoded image.
\<close>

datatype imwrite = ImwriteRaises | ImwriteFalse | ImwriteTrue bytes

text \<open>
  The collaborators of the handler: Werkzeug's \<^verbatim>\<open>secure_filename\<close>, the clock
  (\<^verbatim>\<open>int(time.time())\<close>), Flask's \<^verbatim>\<open>url_for("static", filename=...)\<close>, the network,
  the model (\<^verbatim>\<open>model.predict\<close> on the content of the image file, a function of that
  content and the two thresholds), OpenCV's \<^verbatim>\<open>cv2.imwrite\<close> for a path and a raster,
  and the class names loaded at start (\<^verbatim>\<open>CUSTOM_NAMES\<close>).
\<close>

record env =
  secure_filename :: "string \<Rightarrow> string"
  time_now :: int
  url_for_static :: "string \<Rightarrow> string"
  requests_get :: "string \<Rightarrow> fetch"
  model_predict :: "bytes \<Rightarrow> real \<Rightarrow> real \<Rightarrow> py_error + yolo_result list"
  cv2_imwrite :: "path \<Rightarrow> bytes \<Rightarrow> imwrite"
  CUSTOM_NAMES :: "string list option"

section \<open>Helpers\<close>

definition allowed :: "string \<Rightarrow> bool" where
  "allowed filename =
     (CHR ''.'' \<in> set filename \<and> lower (rsplit1 filename (CHR ''.'') ! 1) \<in> ALLOWED_EXTS)"

definition unique_name :: "env \<Rightarrow> string \<Rightarrow> string \<Rightarrow> string" where
  "unique_name E base ext = base @ ''_'' @ str_int (time_now E) @ ext"

section \<open>Detection\<close>

record detection =
  class_id :: int
  class_name :: string
  confidence :: real
  box_xyxy :: "real list"

text \<open>Truth value, \<^verbatim>\<open>len\<close> and indexing of the name table.\<close>

fun truthy :: "py_names \<Rightarrow> bool" where
  "truthy PyNone = False"
| "truthy (PyList xs) = (xs \<noteq> [])"
| "truthy (PyDict d) = (d \<noteq> [])"

fun len :: "py_names \<Rightarrow> int" where
  "len PyNone = 0"
| "len (PyList xs) = int (length xs)"
| "len (PyDict d) = int (length d)"

fun getitem :: "py_names \<Rightarrow> int \<Rightarrow> py_error + string" where
  "getitem PyNone i = Inl IndexError"
| "getitem (PyList xs) i =
     (if 0 \<le> i \<and> i < int (length xs) then Inr (xs ! nat i)
      else if i < 0 \<and> - int (length xs) \<le> i then Inr (xs ! nat (int (length xs) + i))
      else Inl IndexError)"
| "getitem (PyDict d) i = (case map_of d i of None \<Rightarrow> Inl KeyError | Some s \<Rightarrow> Inr s)"

text \<open>\<^verbatim>\<open>names = CUSTOM_NAMES if CUSTOM_NAMES else res.names\<close>\<close>

definition select_names :: "string list option \<Rightarrow> py_names \<Rightarrow> py_names" where
  "select_names custom res_names =
     (case custom of
        None \<Rightarrow> res_names
      | Some [] \<Rightarrow> res_names
      | Some (x # xs) \<Rightarrow> PyList (x # xs))"

text \<open>\<^verbatim>\<open>names[cls_id] if names and cls_id < len(names) else str(cls_id)\<close>\<close>

definition class_name_of :: "py_names \<Rightarrow> int \<Rightarrow> py_error + string" where
  "class_name_of nms cls_id =
     (if truthy nms \<and> cls_id < len nms then getitem nms cls_id else Inr (str_int cls_id))"

text \<open>The loop over \<^verbatim>\<open>res.boxes\<close>; it stops at the first box whose name lookup raises.\<close>

fun build_dets :: "py_names \<Rightarrow> box list \<Rightarrow> py_error + detection list" where
  "build_dets nms [] = Inr []"
| "build_dets nms (b # bs) =
     (let cls_id = py_int (b_cls b);
          conf_v = b_conf b
      in case b_xyxy b of (x1, y1, x2, y2) \<Rightarrow>
           (case class_name_of nms cls_id of
              Inl e \<Rightarrow> Inl e
            | Inr nm \<Rightarrow>
                (case build_dets nms bs of
                   Inl e \<Rightarrow> Inl e
                 | Inr dets \<Rightarrow>
                     Inr (\<lparr>class_id = cls_id, class_name = nm,
                           confidence = py_round conf_v 4,
                           box_xyxy = [py_round x1 1, py_round y1 1,
                                       py_round x2 1, py_round y2 1]\<rparr> # dets))))"

definition annotated_path_of :: "path \<Rightarrow> path" where
  "annotated_path_of image_path =
     (let orig_name = stem image_path;
          ext = suffix image_path;
          annotated_name = orig_name @ ''_annotated'' @ ext
      in \<lparr>parent = parent image_path, name = annotated_name\<rparr>)"

definition run_yolo ::
  "env \<Rightarrow> path \<Rightarrow> real \<Rightarrow> real \<Rightarrow> world \<Rightarrow> (py_error + detection list \<times> path) \<times> world" where
  "run_yolo E image_path conf_t iou_t w =
     (case files w image_path of
        None \<Rightarrow> (Inl FileNotFoundError, w)
      | Some img \<Rightarrow>
          (case model_predict E img conf_t iou_t of
             Inl e \<Rightarrow> (Inl e, w)
           | Inr results \<Rightarrow>
               (case results of
                  [] \<Rightarrow> (Inl IndexError, w)
                | res # _ \<Rightarrow>
                    (let nms = select_names (CUSTOM_NAMES E) (names res) in
                     case (case boxes res of
                             None \<Rightarrow> Inr []
                           | Some bs \<Rightarrow> build_dets nms bs) of
                       Inl e \<Rightarrow> (Inl e, w)
                     | Inr dets \<Rightarrow>
                         (let annotated_bgr = plot res;
                              annotated_path = annotated_path_of image_path
                          in case cv2_imwrite E annotated_path annotated_bgr of
                               ImwriteRaises \<Rightarrow> (Inl Cv2Error, w)
                             | ImwriteFalse \<Rightarrow> (Inr (dets, annotated_path), w)
                             | ImwriteTrue encoded \<Rightarrow>
                                 (Inr (dets, annotated_path),
                                  write_file annotated_path encoded w))))))"

section \<open>The \<^verbatim>\<open>/predict\<close> route\<close>

record upload =
  filename :: string
  data :: bytes

text \<open>
  \<^verbatim>\<open>request.files.get("image")\<close> and \<^verbatim>\<open>request.form.get("image_url")\<close>.
\<close>

record request =
  image :: "upload option"
  form_image_url :: "string option"

text \<open>
  What \<^verbatim>\<open>render_template("index.html", detections=..., image_url=...)\<close> is given:
  each entry of \<^verbatim>\<open>detections\<close> is an \<^verbatim>\<open>{"error": message}\<close> dict or a detection.
\<close>

datatype item = ErrorItem string | Det detection

record page =
  detections :: "item list"
  image_url :: "string option"

definition error_page :: "string \<Rightarrow> page" where
  "error_page msg = \<lparr>detections = [ErrorItem msg], image_url = None\<rparr>"

text \<open>
  The tail shared by both paths: \<^verbatim>\<open>run_yolo(upload_path)\<close> with the default
  thresholds, then the page with the detections and the URL of the annotated image.
  An exception of \<^verbatim>\<open>run_yolo\<close> is not caught.
\<close>

definition detect_and_render :: "env \<Rightarrow> path \<Rightarrow> world \<Rightarrow> (py_error + page) \<times> world" where
  "detect_and_render E upload_path w =
     (case run_yolo E upload_path 0.25 0.45 w of
        (Inl e, w') \<Rightarrow> (Inl e, w')
      | (Inr (dets, annotated_path), w') \<Rightarrow>
          (Inr \<lparr>detections = map Det dets,
                image_url = Some (url_for_static E (''uploads/'' @ name annotated_path))\<rparr>,
           w'))"

subsection \<open>A) File upload path\<close>

definition upload_branch :: "env \<Rightarrow> upload \<Rightarrow> world \<Rightarrow> (py_error + page) \<times> world" where
  "upload_branch E file w =
     (if \<not> allowed (filename file)
      then (Inr (error_page ''Unsupported file type''), w)
      else
        (let fname = secure_filename E (filename file) in
         case splitext fname of (base, ext) \<Rightarrow>
           (let unique = unique_name E base ext;
                upload_path = in_upload_dir unique;
                w1 = write_file upload_path (data file) w
            in detect_and_render E upload_path w1)))"

subsection \<open>B) URL paste path\<close>

datatype download = Completed | TooLarge | StreamFailed string

text \<open>
  The loop over \<^verbatim>\<open>r.iter_content\<close>: \<open>total_n\<close> is the number of bytes counted so
  far, the file at \<open>upload_path\<close> is open for writing. Each turn of the loop takes one
  chunk from the response; leaving the loop leaves the rest of the body unread.
\<close>

fun save_stream ::
  "path \<Rightarrow> bytes list \<Rightarrow> string option \<Rightarrow> nat \<Rightarrow> world \<Rightarrow> download \<times> world" where
  "save_stream upload_path [] err total_n w =
     (case err of None \<Rightarrow> (Completed, w) | Some msg \<Rightarrow> (StreamFailed msg, w))"
| "save_stream upload_path (chunk # rest) err total_n w =
     (let w1 = w\<lparr>log := log w @ [Chunk (length chunk)]\<rparr> in
      if chunk = [] then save_stream upload_path rest err total_n w1
      else
        (let total_new = total_n + length chunk in
         if MAX_DOWNLOAD_BYTES < total_new
         then (TooLarge, remove_file upload_path w1)
         else save_stream upload_path rest err total_new (append_file upload_path chunk w1)))"

definition header_ctype :: "response \<Rightarrow> string" where
  "header_ctype r =
     lower (strip (split_first (case content_type r of None \<Rightarrow> [] | Some h \<Rightarrow> h) (CHR '';'')))"

definition url_branch :: "env \<Rightarrow> string \<Rightarrow> world \<Rightarrow> (py_error + page) \<times> world" where
  "url_branch E image_url_field w =
     (if \<not> (startswith image_url_field ''http://'' \<or> startswith image_url_field ''https://'')
      then (Inr (error_page ''Only http/https URLs are allowed''), w)
      else
        (let w1 = w\<lparr>log := log w @ [Fetch image_url_field]\<rparr> in
         case requests_get E image_url_field of
           RequestException msg \<Rightarrow> (Inr (error_page (''Failed to fetch URL: '' @ msg)), w1)
         | OtherException msg \<Rightarrow> (Inl (OtherError msg), w1)
         | Response r \<Rightarrow>
             (case raise_for_status r of
                Some msg \<Rightarrow> (Inr (error_page (''Failed to fetch URL: '' @ msg)), w1)
              | None \<Rightarrow>
                  (let ctype = header_ctype r in
                   case ALLOWED_MIME_TO_EXT ctype of
                     None \<Rightarrow>
                       (Inr (error_page (''URL is not an image (got '' @ ctype @ '')'')), w1)
                   | Some e \<Rightarrow>
                       (let ext = ''.'' @ e;
                            unique = unique_name E ''url'' ext;
                            upload_path = in_upload_dir unique;
                            w2 = write_file upload_path [] w1
                        in case save_stream upload_path (chunks r) (stream_error r) 0 w2 of
                             (TooLarge, w3) \<Rightarrow>
                               (Inr (error_page ''Image too large (>5MB)''), w3)
                           | (StreamFailed msg, w3) \<Rightarrow>
                               (Inr (error_page (''Failed to fetch URL: '' @ msg)), w3)
                           | (Completed, w3) \<Rightarrow> detect_and_render E upload_path w3)))))"

subsection \<open>The handler\<close>

definition predict :: "env \<Rightarrow> request \<Rightarrow> world \<Rightarrow> (py_error + page) \<times> world" where
  "predict E req w =
     (let image_url_field = strip (case form_image_url req of None \<Rightarrow> [] | Some u \<Rightarrow> u);
          no_file =
            (if image_url_field \<noteq> [] then url_branch E image_url_field w
             else (Inr (error_page ''Please upload a file or provide an image URL''), w))
      in case image req of
           None \<Rightarrow> no_file
         | Some file \<Rightarrow> if filename file \<noteq> [] then upload_branch E file w else no_file)"

text \<open>\<^verbatim>\<open>file and file.filename\<close>: the request carries an upload with a file name.\<close>

definition has_upload :: "request \<Rightarrow> bool" where
  "has_upload req = (case image req of None \<Rightarrow> False | Some file \<Rightarrow> filename file \<noteq> [])"

text \<open>
  The extension of a file name as the specification uses the word: the text after the
  last dot; a name without a dot has none.
\<close>

definition extension :: "string \<Rightarrow> string option" where
  "extension fn =
     (if CHR ''.'' \<in> set fn
      then Some (rev (takeWhile (\<lambda>x. x \<noteq> CHR ''.'') (rev fn)))
      else None)"

text \<open>Where the file upload path stores the upload.\<close>

definition upload_path_of :: "env \<Rightarrow> upload \<Rightarrow> path" where
  "upload_path_of E file =
     (case splitext (secure_filename E (filename file)) of
        (base, ext) \<Rightarrow> in_upload_dir (unique_name E base ext))"

section \<open>Example inputs\<close>

text \<open>
  A stored image, an engine result with one box, and collaborators that answer the
  same way every time. They serve to evaluate the handler on concrete requests.
\<close>

definition demo_image :: path where
  "demo_image = in_upload_dir ''cat_1700000000.jpg''"

definition demo_result :: yolo_result where
  "demo_result =
     \<lparr>names = PyDict [(0, ''person''), (1, ''car'')],
      boxes = Some [\<lparr>b_cls = 1, b_conf = 0.91237,
                     b_xyxy = (10.04, 20.06, 110.25, 220.36)\<rparr>],
      plot = ''annotated''\<rparr>"

definition demo_env :: "fetch \<Rightarrow> env" where
  "demo_env answer =
     \<lparr>secure_filename = (\<lambda>s. s),
      time_now = 1700000000,
      url_for_static = (\<lambda>f. ''/static/'' @ f),
      requests_get = (\<lambda>u. answer),
      model_predict = (\<lambda>img c i. Inr [demo_result]),
      cv2_imwrite = (\<lambda>p img. ImwriteTrue img),
      CUSTOM_NAMES = Some [''cat'']\<rparr>"

definition demo_world :: world where
  "demo_world = \<lparr>files = [demo_image \<mapsto> ''pixels''], log = []\<rparr>"

definition demo_annotated :: path where
  "demo_annotated = in_upload_dir ''cat_1700000000_annotated.jpg''"

definition demo_detection :: detection where
  "demo_detection =
     \<lparr>class_id = 1, class_name = ''1'', confidence = 0.9124,
      box_xyxy = [10.0, 20.1, 110.2, 220.4]\<rparr>"

definition url_request :: "string \<Rightarrow> request" where
  "url_request u = \<lparr>image = None, form_image_url = Some u\<rparr>"

definition html_response :: response where
  "html_response =
     \<lparr>status_code = 200, reason = ''OK'', final_url = ''http://example.com/page'',
      content_type = Some ''Text/HTML; charset=utf-8'', chunks = [''<html>''],
      stream_error = None\<rparr>"

definition notfound_response :: response where
  "notfound_response =
     \<lparr>status_code = 404, reason = ''Not Found'', final_url = ''http://example.com/missing'',
      content_type = Some ''text/html'', chunks = [''<html>''], stream_error = None\<rparr>"



definition upload_request :: request where
  "upload_request =
     \<lparr>image = Some \<lparr>filename = ''cat.jpg'', data = ''pixels''\<rparr>,
      form_image_url = Some ''http://example.com/dog.png''\<rparr>"

definition pdf_request :: request where
  "pdf_request = \<lparr>image = Some \<lparr>filename = ''doc.pdf'', data = ''%PDF''\<rparr>, form_image_url = None\<rparr>"

definition empty_world :: world where
  "empty_world = \<lparr>files = Map.empty, log = []\<rparr>"

definition blank_name_request :: "string option \<Rightarrow> request" where
  "blank_name_request u = \<lparr>image = Some \<lparr>filename = [], data = []\<rparr>, form_image_url = u\<rparr>"

definition big_response :: response where
  "big_response =
     \<lparr>status_code = 200, reason = ''OK'', final_url = ''https://example.com/big.png'',
      content_type = Some ''image/png'',
      chunks = [replicate 5242880 (CHR ''x''), ''y'', ''never read''],
      stream_error = None\<rparr>"

definition small_response :: response where
  "small_response =
     \<lparr>status_code = 200, reason = ''OK'', final_url = ''https://example.com/big.png'',
      content_type = Some ''image/png'', chunks = [''pixels''], stream_error = None\<rparr>"

text \<open>The boxes the loop of \<^verbatim>\<open>run_yolo\<close> visits: none when \<^verbatim>\<open>res.boxes\<close> is \<^verbatim>\<open>None\<close>.\<close>

definition boxes_of :: "yolo_result \<Rightarrow> box list" where
  "boxes_of res = (case boxes res of None \<Rightarrow> [] | Some bs \<Rightarrow> bs)"

section \<open>Properties of the helpers\<close>

lemmas py_eval =
  str_int_def digits.simps char_of_def bit_0 py_int_def py_round_def round_half_even_def
  is_space_def strip_def lower_char_def lower_def startswith_def rfind_def rsplit1_def
  raise_for_status_def
  split_first_def suffix_def stem_def splitext_def ALLOWED_EXTS_def ALLOWED_MIME_TO_EXT_def
  MAX_DOWNLOAD_BYTES_def UPLOAD_DIR_def in_upload_dir_def Let_def

lemma stem_suffix: "stem p @ suffix p = name p"
  by (simp add: stem_def suffix_def Let_def)

lemma length_annotated_name: "length (name (annotated_path_of p)) = length (name p) + 10"
proof -
  have "length (stem p @ suffix p) = length (name p)"
    by (simp only: stem_suffix)
  then show ?thesis
    by (simp add: annotated_path_of_def Let_def)
qed

lemma annotated_path_neq: "annotated_path_of p \<noteq> p"
proof
  assume "annotated_path_of p = p"
  then have "length (name (annotated_path_of p)) = length (name p)"
    by simp
  then show False
    by (simp add: length_annotated_name)
qed

text \<open>
  The rounding is to a nearest decimal of \<open>n\<close> places: the result, shifted by \<open>n\<close>
  places, is an integer, and it is at most half a unit of the last place away from the
  argument.
\<close>

lemma round_half_even_near: "\<bar>of_int (round_half_even s) - s\<bar> \<le> 1 / 2"
proof -
  define f where "f = \<lfloor>s\<rfloor>"
  have b: "of_int f \<le> s" "s < of_int f + 1"
    unfolding f_def by linarith+
  consider (lo) "s - of_int f < 1 / 2" | (hi) "1 / 2 < s - of_int f" | (tie) "s - of_int f = 1 / 2"
    by linarith
  then show ?thesis
  proof cases
    case lo
    then have "round_half_even s = f"
      by (simp add: round_half_even_def f_def)
    with b lo show ?thesis
      by simp
  next
    case hi
    then have "round_half_even s = f + 1"
      by (simp add: round_half_even_def f_def)
    with b hi show ?thesis
      by simp
  next
    case tie
    then have "round_half_even s = f \<or> round_half_even s = f + 1"
      by (simp add: round_half_even_def f_def Let_def)
    with b tie show ?thesis
      by auto
  qed
qed

lemma py_round_near: "\<bar>py_round x n - x\<bar> \<le> 1 / (2 * 10 ^ n)"
proof -
  have "py_round x n - x = (of_int (round_half_even (x * 10 ^ n)) - x * 10 ^ n) / 10 ^ n"
    by (simp add: py_round_def field_simps)
  then have "\<bar>py_round x n - x\<bar> = \<bar>of_int (round_half_even (x * 10 ^ n)) - x * 10 ^ n\<bar> / 10 ^ n"
    by (simp add: abs_divide)
  also have "\<dots> \<le> (1 / 2) / 10 ^ n"
    by (rule divide_right_mono [OF round_half_even_near]) simp
  finally show ?thesis
    by simp
qed

lemma py_round_decimal: "py_round x n * 10 ^ n = of_int (round_half_even (x * 10 ^ n))"
  by (simp add: py_round_def)

text \<open>The second part of \<^verbatim>\<open>rsplit(".", 1)\<close> is the text after the last dot.\<close>

lemma takeWhile_less_length: "c \<in> set s \<Longrightarrow> length (takeWhile (\<lambda>x. x \<noteq> c) s) < length s"
  by (induction s) auto

lemma rsplit1_last:
  assumes "c \<in> set s"
  shows "rsplit1 s c ! 1 = rev (takeWhile (\<lambda>x. x \<noteq> c) (rev s))"
proof -
  let ?tw = "takeWhile (\<lambda>x. x \<noteq> c) (rev s)"
  from assms have lt: "length ?tw < length s"
    using takeWhile_less_length [of c "rev s"] by simp
  then have n: "nat (rfind s c) + 1 = length s - length ?tw"
    using assms by (simp add: rfind_def nat_diff_distrib)
  have "rev ?tw = rev (take (length ?tw) (rev s))"
    by (simp add: takeWhile_eq_take [symmetric])
  also have "\<dots> = drop (length s - length ?tw) s"
    by (simp add: rev_take)
  finally show ?thesis
    using assms n by (simp add: rsplit1_def)
qed

lemma allowed_extension:
  "allowed fn \<longleftrightarrow>
     (case extension fn of None \<Rightarrow> False
      | Some e \<Rightarrow> lower e \<in> {''jpg'', ''jpeg'', ''png'', ''bmp''})"
proof (cases "CHR ''.'' \<in> set fn")
  case True
  from rsplit1_last [OF True] True show ?thesis
    by (simp add: allowed_def extension_def ALLOWED_EXTS_def)
next
  case False
  then show ?thesis
    by (simp add: allowed_def extension_def)
qed

lemma error_page_eq: "error_page a = error_page b \<longleftrightarrow> a = b"
  by (simp add: error_page_def)

lemma startswith_nonempty: "startswith u p \<Longrightarrow> p \<noteq> [] \<Longrightarrow> u \<noteq> []"
  by (auto simp: startswith_def)

lemma allow_list: "ALLOWED_MIME_TO_EXT t = None \<longleftrightarrow> t \<notin> {''image/jpeg'', ''image/png'', ''image/bmp''}"
  by (simp add: ALLOWED_MIME_TO_EXT_def)

section \<open>Properties of \<^verbatim>\<open>run_yolo\<close>\<close>

lemma build_dets_Inr:
  "build_dets nms bs = Inr dets \<Longrightarrow>
   length dets = length bs \<and>
   (\<forall>k<length bs.
      class_id (dets ! k) = py_int (b_cls (bs ! k)) \<and>
      class_name_of nms (py_int (b_cls (bs ! k))) = Inr (class_name (dets ! k)) \<and>
      confidence (dets ! k) = py_round (b_conf (bs ! k)) 4 \<and>
      box_xyxy (dets ! k) =
        (case b_xyxy (bs ! k) of (x1, y1, x2, y2) \<Rightarrow>
           [py_round x1 1, py_round y1 1, py_round x2 1, py_round y2 1]))"
proof (induction bs arbitrary: dets)
  case Nil
  then show ?case by simp
next
  case (Cons b bs)
  obtain x1 y1 x2 y2 where xy: "b_xyxy b = (x1, y1, x2, y2)"
    by (cases "b_xyxy b") auto
  from Cons.prems xy obtain nm ds where
    nm: "class_name_of nms (py_int (b_cls b)) = Inr nm" and
    ds: "build_dets nms bs = Inr ds" and
    dets: "dets = \<lparr>class_id = py_int (b_cls b), class_name = nm,
                    confidence = py_round (b_conf b) 4,
                    box_xyxy = [py_round x1 1, py_round y1 1,
                                py_round x2 1, py_round y2 1]\<rparr> # ds"
    by (auto simp: Let_def split: sum.splits)
  from Cons.IH [OF ds] have len: "length ds = length bs" and
    ih: "\<And>k. k < length bs \<Longrightarrow>
           class_id (ds ! k) = py_int (b_cls (bs ! k)) \<and>
           class_name_of nms (py_int (b_cls (bs ! k))) = Inr (class_name (ds ! k)) \<and>
           confidence (ds ! k) = py_round (b_conf (bs ! k)) 4 \<and>
           box_xyxy (ds ! k) =
             (case b_xyxy (bs ! k) of (x1, y1, x2, y2) \<Rightarrow>
                [py_round x1 1, py_round y1 1, py_round x2 1, py_round y2 1])"
    by auto
  show ?case
  proof (intro conjI allI impI)
    show "length dets = length (b # bs)"
      using len dets by simp
  next
    fix k assume k: "k < length (b # bs)"
    show "class_id (dets ! k) = py_int (b_cls ((b # bs) ! k))"
      using k ih dets by (cases k) auto
    show "class_name_of nms (py_int (b_cls ((b # bs) ! k))) = Inr (class_name (dets ! k))"
      using k ih nm dets by (cases k) auto
    show "confidence (dets ! k) = py_round (b_conf ((b # bs) ! k)) 4"
      using k ih dets by (cases k) auto
    show "box_xyxy (dets ! k) =
            (case b_xyxy ((b # bs) ! k) of (x1, y1, x2, y2) \<Rightarrow>
               [py_round x1 1, py_round y1 1, py_round x2 1, py_round y2 1])"
      using k ih dets xy by (cases k) auto
  qed
qed

text \<open>A normal return of \<^verbatim>\<open>run_yolo\<close>, step by step.\<close>

lemma run_yolo_Inr:
  assumes "run_yolo E p c i w = (Inr (dets, ap), w')"
  shows "\<exists>img res rest.
           files w p = Some img \<and> model_predict E img c i = Inr (res # rest) \<and>
           build_dets (select_names (CUSTOM_NAMES E) (names res)) (boxes_of res) = Inr dets \<and>
           ap = annotated_path_of p \<and>
           (cv2_imwrite E ap (plot res) = ImwriteFalse \<and> w' = w \<or>
            (\<exists>enc. cv2_imwrite E ap (plot res) = ImwriteTrue enc \<and>
                   w' = write_file ap enc w))"
  using assms
  by (auto simp: run_yolo_def boxes_of_def Let_def
           split: option.splits sum.splits list.splits imwrite.splits)

text \<open>An exception of \<^verbatim>\<open>run_yolo\<close> leaves the world as it was.\<close>

lemma run_yolo_Inl: "run_yolo E p c i w = (Inl e, w') \<Longrightarrow> w' = w"
  by (auto simp: run_yolo_def Let_def
           split: option.splits sum.splits list.splits imwrite.splits)

text \<open>The example invocation, evaluated.\<close>

lemma demo_run:
  "run_yolo (demo_env a) demo_image 0.25 0.45 demo_world =
     (Inr ([demo_detection], demo_annotated),
      write_file demo_annotated ''annotated'' demo_world)"
  by (simp add: run_yolo_def demo_env_def demo_world_def demo_image_def demo_result_def
      demo_detection_def demo_annotated_def
      select_names_def class_name_of_def annotated_path_of_def write_file_def py_eval)

lemma demo_file: "files demo_world demo_image = Some ''pixels''"
  by (simp add: demo_world_def)

lemma demo_model: "model_predict (demo_env a) ''pixels'' 0.25 0.45 = Inr (demo_result # [])"
  by (simp add: demo_env_def)

text \<open>
  C6: every detection record that \<^verbatim>\<open>run_yolo\<close> returns carries the confidence of its
  box rounded to 4 decimal places and the four coordinates of its box, in order, each
  rounded to 1 decimal place. There is one record per box of the engine's first result,
  in the order of the boxes.
\<close>

theorem run_yolo_rounding:
  assumes "run_yolo E p c i w = (Inr (dets, ap), w')"
    and "files w p = Some img"
    and "model_predict E img c i = Inr (res # rest)"
  shows "length dets = length (boxes_of res) \<and>
         (\<forall>k<length dets.
            confidence (dets ! k) = py_round (b_conf (boxes_of res ! k)) 4 \<and>
            box_xyxy (dets ! k) =
              (case b_xyxy (boxes_of res ! k) of (x1, y1, x2, y2) \<Rightarrow>
                 [py_round x1 1, py_round y1 1, py_round x2 1, py_round y2 1]))"
proof -
  from run_yolo_Inr [OF assms(1)] assms(2,3) have
    "build_dets (select_names (CUSTOM_NAMES E) (names res)) (boxes_of res) = Inr dets"
    by auto
  from build_dets_Inr [OF this] show ?thesis
    by simp
qed

theorem run_yolo_rounding_witness:
  "run_yolo (demo_env (RequestException [])) demo_image 0.25 0.45 demo_world =
     (Inr ([demo_detection], demo_annotated),
      write_file demo_annotated ''annotated'' demo_world) \<and>
   length [demo_detection] = length (boxes_of demo_result) \<and>
   b_conf (boxes_of demo_result ! 0) = 0.91237 \<and>
   confidence ([demo_detection] ! 0) = py_round 0.91237 4 \<and>
   confidence ([demo_detection] ! 0) = 0.9124 \<and>
   b_xyxy (boxes_of demo_result ! 0) = (10.04, 20.06, 110.25, 220.36) \<and>
   box_xyxy ([demo_detection] ! 0) = [10.0, 20.1, 110.2, 220.4]"
  using run_yolo_rounding
      [OF demo_run [of "RequestException []"] demo_file demo_model [of "RequestException []"]]
    demo_run [of "RequestException []"]
  by (simp add: demo_detection_def demo_result_def boxes_of_def)







text \<open>
  C8: the engine is a function of the content of the image file and of the two
  thresholds. Running \<^verbatim>\<open>run_yolo\<close> a second time on the same path with the same
  thresholds, in the world the first run left behind, has the outcome of the first
  run: the same detection list and annotated path, or the same exception. The first
  run writes the annotated file only, which is not the image.
\<close>

theorem run_yolo_idempotent:
  "fst (run_yolo E p c i (snd (run_yolo E p c i w))) = fst (run_yolo E p c i w)"
proof (cases "run_yolo E p c i w")
  case (Pair r w')
  show ?thesis
  proof (cases r)
    case (Inl e)
    with Pair have "w' = w"
      by (simp add: run_yolo_Inl)
    with Pair show ?thesis
      by simp
  next
    case (Inr da)
    obtain dets ap where da: "da = (dets, ap)"
      by (cases da) auto
    from run_yolo_Inr [of E p c i w dets ap w'] Pair Inr da obtain img res rest where
      f: "files w p = Some img" and m: "model_predict E img c i = Inr (res # rest)" and
      b: "build_dets (select_names (CUSTOM_NAMES E) (names res)) (boxes_of res) = Inr dets" and
      ap: "ap = annotated_path_of p" and
      e: "cv2_imwrite E ap (plot res) = ImwriteFalse \<and> w' = w \<or>
          (\<exists>enc. cv2_imwrite E ap (plot res) = ImwriteTrue enc \<and> w' = write_file ap enc w)"
      by auto
    have "files w' p = Some img"
      using f ap e annotated_path_neq [of p] by (auto simp: write_file_def)
    then have "fst (run_yolo E p c i w') = Inr (dets, ap)"
      using m b e ap
      by (auto simp: run_yolo_def boxes_of_def Let_def split: option.splits)
    with Pair Inr da show ?thesis
      by simp
  qed
qed

theorem run_yolo_idempotent_witness:
  "fst (run_yolo (demo_env (RequestException [])) demo_image 0.25 0.45
         (write_file demo_annotated ''annotated'' demo_world)) =
     Inr ([demo_detection], demo_annotated)"
  using run_yolo_idempotent [of "demo_env (RequestException [])" demo_image "0.25" "0.45" demo_world]
    demo_run [of "RequestException []"]
  by simp




section \<open>Properties of \<^verbatim>\<open>predict\<close>\<close>

lemma fetches_write_file [simp]: "fetches (write_file p c w) = fetches w"
  by (simp add: fetches_def write_file_def)

lemma fetches_run_yolo: "fetches (snd (run_yolo E p c i w)) = fetches w"
proof (cases "run_yolo E p c i w")
  case (Pair r w')
  show ?thesis
  proof (cases r)
    case (Inl e)
    with Pair show ?thesis by (auto dest: run_yolo_Inl)
  next
    case (Inr da)
    obtain dets ap where "da = (dets, ap)" by (cases da) auto
    with Pair Inr run_yolo_Inr [of E p c i w dets ap w'] show ?thesis by auto
  qed
qed

lemma detect_and_render_fetches:
  "fetches (snd (detect_and_render E p w)) = fetches w"
  using fetches_run_yolo [of E p "0.25" "0.45" w]
  by (auto simp: detect_and_render_def split: prod.splits sum.splits)

lemma detect_and_render_not_error:
  "fst (detect_and_render E p w) \<noteq> Inr (error_page msg)"
  by (auto simp: detect_and_render_def error_page_def split: prod.splits sum.splits)

lemma upload_branch_fetches: "fetches (snd (upload_branch E file w)) = fetches w"
  by (simp add: upload_branch_def Let_def detect_and_render_fetches split: prod.splits)

lemma run_yolo_requests_get [simp]:
  "run_yolo (E\<lparr>requests_get := g\<rparr>) p c i w = run_yolo E p c i w"
  by (simp add: run_yolo_def
           cong: option.case_cong sum.case_cong list.case_cong imwrite.case_cong)

lemma upload_branch_requests_get [simp]:
  "upload_branch (E\<lparr>requests_get := g\<rparr>) file w = upload_branch E file w"
  by (simp add: upload_branch_def detect_and_render_def unique_name_def Let_def
           cong: prod.case_cong sum.case_cong)

lemma predict_upload:
  "image req = Some file \<Longrightarrow> filename file \<noteq> [] \<Longrightarrow> predict E req w = upload_branch E file w"
  by (simp add: predict_def Let_def)

lemma predict_no_upload:
  "\<not> has_upload req \<Longrightarrow>
   predict E req w =
     (let u = strip (case form_image_url req of None \<Rightarrow> [] | Some s \<Rightarrow> s) in
      if u \<noteq> [] then url_branch E u w
      else (Inr (error_page ''Please upload a file or provide an image URL''), w))"
  by (auto simp: predict_def has_upload_def Let_def split: option.splits)

text \<open>
  C9: a request with a file part whose file name is not empty takes the file upload
  path, whatever the form field \<^verbatim>\<open>image_url\<close> holds and whatever the network would
  answer, and issues no HTTP request.
\<close>

theorem upload_takes_priority:
  assumes "image req = Some file" and "filename file \<noteq> []"
  shows "predict E req w = upload_branch E file w \<and>
         predict (E\<lparr>requests_get := g\<rparr>) (req\<lparr>form_image_url := u\<rparr>) w = predict E req w \<and>
         fetches (snd (predict E req w)) = fetches w"
  using assms by (simp add: predict_upload upload_branch_fetches)

lemma demo_upload:
  "predict (demo_env a) upload_request empty_world =
     (Inr \<lparr>detections = [Det demo_detection],
           image_url = Some ''/static/uploads/cat_1700000000_annotated.jpg''\<rparr>,
      \<lparr>files = [demo_image \<mapsto> ''pixels'', demo_annotated \<mapsto> ''annotated''],
       log = [Write demo_image, Write demo_annotated]\<rparr>)"
  by (simp add: predict_def upload_request_def empty_world_def upload_branch_def allowed_def
      unique_name_def detect_and_render_def
      run_yolo_def demo_env_def demo_image_def demo_result_def
      demo_detection_def demo_annotated_def
      select_names_def class_name_of_def annotated_path_of_def write_file_def py_eval)

theorem upload_takes_priority_witness:
  "image upload_request = Some \<lparr>filename = ''cat.jpg'', data = ''pixels''\<rparr> \<and>
   form_image_url upload_request = Some ''http://example.com/dog.png'' \<and>
   fst (predict (demo_env (Response html_response)) upload_request empty_world) =
     Inr \<lparr>detections = [Det demo_detection],
          image_url = Some ''/static/uploads/cat_1700000000_annotated.jpg''\<rparr> \<and>
   predict (demo_env (RequestException ''down'')) (upload_request\<lparr>form_image_url := None\<rparr>)
       empty_world =
     predict (demo_env (Response html_response)) upload_request empty_world \<and>
   fetches (snd (predict (demo_env (Response html_response)) upload_request empty_world)) = []"
proof -
  have 1: "image upload_request = Some \<lparr>filename = ''cat.jpg'', data = ''pixels''\<rparr>"
    by (simp add: upload_request_def)
  have 2: "filename \<lparr>filename = ''cat.jpg'', data = ''pixels''\<rparr> \<noteq> []"
    by simp
  have 3: "form_image_url upload_request = Some ''http://example.com/dog.png''"
    by (simp add: upload_request_def)
  have 4: "demo_env (Response html_response)\<lparr>requests_get := \<lambda>u. RequestException ''down''\<rparr> =
           demo_env (RequestException ''down'')"
    by (simp add: demo_env_def)
  from upload_takes_priority
    [where E = "demo_env (Response html_response)" and w = empty_world and u = None
       and g = "\<lambda>u. RequestException ''down''", OF 1 2]
    demo_upload [of "Response html_response"] 1 3 4
  show ?thesis
    by (simp add: fetches_def empty_world_def)
qed

lemma upload_branch_allowed:
  "allowed (filename file) \<Longrightarrow>
   upload_branch E file w =
     detect_and_render E (upload_path_of E file)
       (write_file (upload_path_of E file) (data file) w)"
  by (simp add: upload_branch_def upload_path_of_def Let_def split: prod.splits)

text \<open>
  C3: an upload whose file name has no extension, or whose extension, in lower case,
  is none of jpg, jpeg, png, bmp, is answered with the error \<^verbatim>\<open>Unsupported file type\<close>
  and the world is left as it was: no file is written. An upload with one of these
  extensions is not answered with that error: it is stored and goes on to detection.
\<close>

theorem upload_extension_check:
  assumes "image req = Some file" and "filename file \<noteq> []"
  shows "if (case extension (filename file) of None \<Rightarrow> False
            | Some e \<Rightarrow> lower e \<in> {''jpg'', ''jpeg'', ''png'', ''bmp''})
         then fst (predict E req w) \<noteq> Inr (error_page ''Unsupported file type'') \<and>
              predict E req w =
                detect_and_render E (upload_path_of E file)
                  (write_file (upload_path_of E file) (data file) w)
         else predict E req w = (Inr (error_page ''Unsupported file type''), w)"
proof -
  have p: "predict E req w = upload_branch E file w"
    using assms by (simp add: predict_upload)
  show ?thesis
  proof (cases "allowed (filename file)")
    case True
    then have "fst (predict E req w) \<noteq> Inr (error_page ''Unsupported file type'') \<and>
              predict E req w =
                detect_and_render E (upload_path_of E file)
                  (write_file (upload_path_of E file) (data file) w)"
      using p by (simp add: upload_branch_allowed detect_and_render_not_error)
    with True show ?thesis
      by (simp add: allowed_extension detect_and_render_not_error)
  next
    case False
    then have "predict E req w = (Inr (error_page ''Unsupported file type''), w)"
      using p by (simp add: upload_branch_def)
    with False show ?thesis
      by (simp add: allowed_extension)
  qed
qed

theorem upload_extension_check_witness:
  "extension ''doc.pdf'' = Some ''pdf'' \<and>
   predict (demo_env (RequestException [])) pdf_request empty_world =
     (Inr (error_page ''Unsupported file type''), empty_world) \<and>
   extension ''cat.jpg'' = Some ''jpg'' \<and>
   fst (predict (demo_env (RequestException [])) upload_request empty_world) \<noteq>
     Inr (error_page ''Unsupported file type'')"
proof -
  have 1: "image pdf_request = Some \<lparr>filename = ''doc.pdf'', data = ''%PDF''\<rparr>"
    by (simp add: pdf_request_def)
  have 2: "image upload_request = Some \<lparr>filename = ''cat.jpg'', data = ''pixels''\<rparr>"
    by (simp add: upload_request_def)
  have 3: "extension ''doc.pdf'' = Some ''pdf''" "extension ''cat.jpg'' = Some ''jpg''"
    by (simp_all add: extension_def)
  have 4: "lower ''pdf'' = ''pdf''" "lower ''jpg'' = ''jpg''"
    by (simp_all add: py_eval)
  from upload_extension_check [where E = "demo_env (RequestException [])" and w = empty_world, OF 1]
    upload_extension_check [where E = "demo_env (RequestException [])" and w = empty_world, OF 2] 3 4
  show ?thesis
    by (simp add: detect_and_render_not_error)
qed

text \<open>
  C4, as the code has it: on the URL path (no upload with a file name), when the
  submitted \<^verbatim>\<open>image_url\<close>, stripped of surrounding whitespace, is not empty and starts
  with neither \<^verbatim>\<open>http://\<close> nor \<^verbatim>\<open>https://\<close>, the answer is the error
  \<^verbatim>\<open>Only http/https URLs are allowed\<close>; the world is left as it was, so no HTTP
  request is issued.
\<close>

theorem scheme_check:
  assumes "\<not> has_upload req"
    and "u = strip (case form_image_url req of None \<Rightarrow> [] | Some s \<Rightarrow> s)"
    and "u \<noteq> []"
    and "\<not> startswith u ''http://''" and "\<not> startswith u ''https://''"
  shows "predict E req w = (Inr (error_page ''Only http/https URLs are allowed''), w) \<and>
         fetches (snd (predict E req w)) = fetches w"
  using assms by (simp add: predict_no_upload url_branch_def Let_def)

theorem scheme_check_witness:
  "\<not> has_upload (url_request ''ftp://example.com/a.jpg'') \<and>
   strip ''ftp://example.com/a.jpg'' = ''ftp://example.com/a.jpg'' \<and>
   predict (demo_env (Response html_response)) (url_request ''ftp://example.com/a.jpg'') empty_world =
     (Inr (error_page ''Only http/https URLs are allowed''), empty_world) \<and>
   fetches (snd (predict (demo_env (Response html_response)) (url_request ''ftp://example.com/a.jpg'') empty_world)) = []"
proof -
  have 1: "\<not> has_upload (url_request ''ftp://example.com/a.jpg'')"
    by (simp add: has_upload_def url_request_def)
  have 2: "''ftp://example.com/a.jpg'' =
      strip (case form_image_url (url_request ''ftp://example.com/a.jpg'') of None \<Rightarrow> [] | Some s \<Rightarrow> s)"
    by (simp add: url_request_def py_eval)
  have 3: "''ftp://example.com/a.jpg'' \<noteq> []"
    by simp
  have 4: "\<not> startswith ''ftp://example.com/a.jpg'' ''http://''"
    by (simp add: startswith_def)
  have 5: "\<not> startswith ''ftp://example.com/a.jpg'' ''https://''"
    by (simp add: startswith_def)
  have 6: "strip ''ftp://example.com/a.jpg'' = ''ftp://example.com/a.jpg''"
    by (simp add: py_eval)
  from scheme_check
    [where E = "demo_env (Response html_response)" and w = empty_world, OF 1 2 3 4 5] 1 6
  show ?thesis
    by (simp add: fetches_def empty_world_def)
qed

text \<open>
  The check reads the stripped field: a submitted URL with a leading blank does not
  start with \<^verbatim>\<open>http://\<close>, and is fetched all the same.
\<close>

theorem scheme_check_counterexample:
  "\<not> startswith '' http://example.com/a.jpg'' ''http://'' \<and>
   \<not> startswith '' http://example.com/a.jpg'' ''https://'' \<and>
   fst (predict (demo_env (RequestException ''timed out'')) (url_request '' http://example.com/a.jpg'') empty_world) =
     Inr (error_page ''Failed to fetch URL: timed out'') \<and>
   fetches (snd (predict (demo_env (RequestException ''timed out'')) (url_request '' http://example.com/a.jpg'') empty_world)) =
     [''http://example.com/a.jpg'']"
  by (simp add: predict_def url_request_def url_branch_def demo_env_def empty_world_def
      fetches_def py_eval)

text \<open>
  C10, as the code has it: a request whose file part has an empty file name is handled
  as the same request without a file part. The URL path is taken when \<^verbatim>\<open>image_url\<close>,
  stripped of surrounding whitespace, is not empty; otherwise the answer is the error
  \<^verbatim>\<open>Please upload a file or provide an image URL\<close>.
\<close>

theorem empty_filename_as_no_file:
  assumes "image req = Some file" and "filename file = []"
  shows "predict E req w = predict E (req\<lparr>image := None\<rparr>) w \<and>
         predict E req w =
           (let u = strip (case form_image_url req of None \<Rightarrow> [] | Some s \<Rightarrow> s) in
            if u \<noteq> [] then url_branch E u w
            else (Inr (error_page ''Please upload a file or provide an image URL''), w))"
  using assms by (simp add: predict_def Let_def)

theorem empty_filename_as_no_file_witness:
  "image (blank_name_request (Some ''ftp://example.com/a.jpg'')) = Some \<lparr>filename = [], data = []\<rparr> \<and>
   predict (demo_env (Response html_response)) (blank_name_request (Some ''ftp://example.com/a.jpg'')) empty_world =
     predict (demo_env (Response html_response)) (url_request ''ftp://example.com/a.jpg'') empty_world \<and>
   predict (demo_env (Response html_response)) (blank_name_request (Some ''ftp://example.com/a.jpg'')) empty_world =
     url_branch (demo_env (Response html_response)) ''ftp://example.com/a.jpg'' empty_world \<and>
   predict (demo_env (Response html_response)) (blank_name_request None) empty_world =
     (Inr (error_page ''Please upload a file or provide an image URL''), empty_world)"
proof -
  have 1: "image (blank_name_request u) = Some \<lparr>filename = [], data = []\<rparr>" for u
    by (simp add: blank_name_request_def)
  have 2: "filename \<lparr>filename = [], data = []\<rparr> = []"
    by simp
  have 3: "blank_name_request (Some ''ftp://example.com/a.jpg'')\<lparr>image := None\<rparr> = url_request ''ftp://example.com/a.jpg''"
    by (simp add: blank_name_request_def url_request_def)
  have 4: "strip ''ftp://example.com/a.jpg'' = ''ftp://example.com/a.jpg''"
    by (simp add: py_eval)
  have 5: "form_image_url (blank_name_request u) = u" for u
    by (simp add: blank_name_request_def)
  have 6: "strip [] = []"
    by (simp add: strip_def)
  note A = empty_filename_as_no_file
      [where E = "demo_env (Response html_response)" and w = empty_world,
       OF 1 [of "Some ''ftp://example.com/a.jpg''"] 2]
  note B = empty_filename_as_no_file
      [where E = "demo_env (Response html_response)" and w = empty_world, OF 1 [of None] 2]
  have c2: "predict (demo_env (Response html_response))
              (blank_name_request (Some ''ftp://example.com/a.jpg'')) empty_world =
            predict (demo_env (Response html_response))
              (url_request ''ftp://example.com/a.jpg'') empty_world"
    using A [THEN conjunct1] by (simp only: 3)
  have c3: "predict (demo_env (Response html_response))
              (blank_name_request (Some ''ftp://example.com/a.jpg'')) empty_world =
            url_branch (demo_env (Response html_response)) ''ftp://example.com/a.jpg''
              empty_world"
    using A [THEN conjunct2] by (simp add: 4 5 Let_def)
  have c4: "predict (demo_env (Response html_response)) (blank_name_request None) empty_world =
            (Inr (error_page ''Please upload a file or provide an image URL''), empty_world)"
    using B [THEN conjunct2] by (simp add: 5 6 Let_def)
  from 1 [of "Some ''ftp://example.com/a.jpg''"] c2 c3 c4 show ?thesis
    by blast
qed

text \<open>
  An \<^verbatim>\<open>image_url\<close> of one blank is not empty, and the URL path is not taken.
\<close>

theorem blank_url_counterexample:
  "image (blank_name_request (Some '' '')) = Some \<lparr>filename = [], data = []\<rparr> \<and>
   form_image_url (blank_name_request (Some '' '')) = Some '' '' \<and>
   '' '' \<noteq> [] \<and>
   predict (demo_env (Response html_response)) (blank_name_request (Some '' '')) empty_world =
     (Inr (error_page ''Please upload a file or provide an image URL''), empty_world)"
  by (simp add: predict_def blank_name_request_def py_eval)

lemma raise_for_status_None:
  "raise_for_status r = None \<longleftrightarrow> \<not> (400 \<le> status_code r \<and> status_code r < 600)"
  by (auto simp: raise_for_status_def)

text \<open>
  C5, as the code has it: on the URL path, when the fetch gives a response whose
  status is not an HTTP error (not from 400 to 599) and whose declared content type
  (the \<^verbatim>\<open>Content-Type\<close> header up to the first \<^verbatim>\<open>;\<close>, stripped, in lower case) is none
  of image/jpeg, image/png, image/bmp, the answer is the error
  \<^verbatim>\<open>URL is not an image (got {type})\<close> with that type, and the files are as they were:
  the only effect is the HTTP request.
\<close>

theorem content_type_check:
  assumes "\<not> has_upload req"
    and "u = strip (case form_image_url req of None \<Rightarrow> [] | Some s \<Rightarrow> s)"
    and "startswith u ''http://'' \<or> startswith u ''https://''"
    and "requests_get E u = Response r"
    and "\<not> (400 \<le> status_code r \<and> status_code r < 600)"
    and "header_ctype r \<notin> {''image/jpeg'', ''image/png'', ''image/bmp''}"
  shows "fst (predict E req w) =
           Inr (error_page (''URL is not an image (got '' @ header_ctype r @ '')'')) \<and>
         files (snd (predict E req w)) = files w \<and>
         log (snd (predict E req w)) = log w @ [Fetch u]"
proof -
  from assms(3) have ne: "u \<noteq> []"
    by (auto dest: startswith_nonempty)
  from assms(6) have none: "ALLOWED_MIME_TO_EXT (header_ctype r) = None"
    by (simp add: allow_list)
  from assms(5) have ok: "raise_for_status r = None"
    by (simp add: raise_for_status_None)
  have "predict E req w = url_branch E u w"
    using assms(1,2) ne by (simp add: predict_no_upload Let_def)
  moreover have "url_branch E u w =
    (Inr (error_page (''URL is not an image (got '' @ header_ctype r @ '')'')),
     w\<lparr>log := log w @ [Fetch u]\<rparr>)"
    using assms(3,4) none ok by (simp add: url_branch_def Let_def)
  ultimately show ?thesis
    by simp
qed

lemma header_ctype_html: "header_ctype html_response = ''text/html''"
  by (simp add: header_ctype_def html_response_def py_eval)

theorem content_type_check_witness:
  "\<not> has_upload (url_request ''http://example.com/page'') \<and>
   startswith ''http://example.com/page'' ''http://'' \<and>
   status_code html_response = 200 \<and>
   header_ctype html_response = ''text/html'' \<and>
   fst (predict (demo_env (Response html_response)) (url_request ''http://example.com/page'') demo_world) =
     Inr (error_page ''URL is not an image (got text/html)'') \<and>
   files (snd (predict (demo_env (Response html_response)) (url_request ''http://example.com/page'') demo_world)) =
     files demo_world \<and>
   log (snd (predict (demo_env (Response html_response)) (url_request ''http://example.com/page'') demo_world)) =
     [Fetch ''http://example.com/page'']"
proof -
  have 1: "\<not> has_upload (url_request ''http://example.com/page'')"
    by (simp add: has_upload_def url_request_def)
  have 2: "''http://example.com/page'' =
      strip (case form_image_url (url_request ''http://example.com/page'') of None \<Rightarrow> [] | Some s \<Rightarrow> s)"
    by (simp add: url_request_def py_eval)
  have 3: "startswith ''http://example.com/page'' ''http://'' \<or> startswith ''http://example.com/page'' ''https://''"
    by (simp add: startswith_def)
  have 4: "requests_get (demo_env (Response html_response)) ''http://example.com/page'' = Response html_response"
    by (simp add: demo_env_def)
  have 5: "\<not> (400 \<le> status_code html_response \<and> status_code html_response < 600)"
    by (simp add: html_response_def)
  have 6: "header_ctype html_response \<notin> {''image/jpeg'', ''image/png'', ''image/bmp''}"
    by (simp add: header_ctype_html)
  have 7: "startswith ''http://example.com/page'' ''http://''"
    by (simp add: startswith_def)
  have 8: "status_code html_response = 200"
    by (simp add: html_response_def)
  from content_type_check [OF 1 2 3 4 5 6, of demo_world] 1 7 8 header_ctype_html
  show ?thesis
    by (simp add: demo_world_def)
qed

text \<open>
  A response with status 404 that declares \<^verbatim>\<open>text/html\<close>: \<^verbatim>\<open>raise_for_status\<close> runs
  before the header is read, and the answer is the fetch error.
\<close>

theorem error_status_counterexample:
  "status_code notfound_response = 404 \<and>
   header_ctype notfound_response = ''text/html'' \<and>
   ALLOWED_MIME_TO_EXT (header_ctype notfound_response) = None \<and>
   predict (demo_env (Response notfound_response)) (url_request ''http://example.com/missing'')
       empty_world =
     (Inr (error_page
        ''Failed to fetch URL: 404 Client Error: Not Found for url: http://example.com/missing''),
      \<lparr>files = Map.empty, log = [Fetch ''http://example.com/missing'']\<rparr>)"
  by (simp add: predict_def url_request_def url_branch_def demo_env_def empty_world_def
      notfound_response_def header_ctype_def py_eval)

text \<open>
  The loop leaves at the first chunk that takes the count over the cap: the chunks
  before it have been counted and written, the chunk itself is taken and dropped, the
  file is removed, and no later chunk is taken from the response.
\<close>

lemma save_stream_abort:
  "total_n \<le> MAX_DOWNLOAD_BYTES \<Longrightarrow>
   MAX_DOWNLOAD_BYTES < total_n + sum_list (map length cs) \<Longrightarrow>
   \<exists>pre c post.
     cs = pre @ c # post \<and>
     total_n + sum_list (map length pre) \<le> MAX_DOWNLOAD_BYTES \<and>
     MAX_DOWNLOAD_BYTES < total_n + sum_list (map length pre) + length c \<and>
     fst (save_stream p cs err total_n w) = TooLarge \<and>
     files (snd (save_stream p cs err total_n w)) = (files w)(p := None) \<and>
     log (snd (save_stream p cs err total_n w)) =
       log w @ map (\<lambda>x. Chunk (length x)) (pre @ [c]) @ [Remove p]"
proof (induction cs arbitrary: total_n w)
  case Nil
  then show ?case
    by simp
next
  case (Cons chunk rest)
  let ?w1 = "w\<lparr>log := log w @ [Chunk (length chunk)]\<rparr>"
  show ?case
  proof (cases "chunk = []")
    case True
    from Cons.prems True have big: "MAX_DOWNLOAD_BYTES < total_n + sum_list (map length rest)"
      by simp
    from Cons.IH [OF Cons.prems(1) big, of ?w1] obtain pre c post where
      ih: "rest = pre @ c # post"
        "total_n + sum_list (map length pre) \<le> MAX_DOWNLOAD_BYTES"
        "MAX_DOWNLOAD_BYTES < total_n + sum_list (map length pre) + length c"
        "fst (save_stream p rest err total_n ?w1) = TooLarge"
        "files (snd (save_stream p rest err total_n ?w1)) = (files ?w1)(p := None)"
        "log (snd (save_stream p rest err total_n ?w1)) =
           log ?w1 @ map (\<lambda>x. Chunk (length x)) (pre @ [c]) @ [Remove p]"
      by blast
    have "chunk # rest = (chunk # pre) @ c # post"
      using ih(1) by simp
    moreover have "total_n + sum_list (map length (chunk # pre)) \<le> MAX_DOWNLOAD_BYTES"
      using ih(2) True by simp
    moreover have
      "MAX_DOWNLOAD_BYTES < total_n + sum_list (map length (chunk # pre)) + length c"
      using ih(3) True by simp
    moreover have "fst (save_stream p (chunk # rest) err total_n w) = TooLarge"
      using ih(4) True by (simp add: Let_def)
    moreover have
      "files (snd (save_stream p (chunk # rest) err total_n w)) = (files w)(p := None)"
      using ih(5) True by (simp add: Let_def)
    moreover have "log (snd (save_stream p (chunk # rest) err total_n w)) =
       log w @ map (\<lambda>x. Chunk (length x)) ((chunk # pre) @ [c]) @ [Remove p]"
      using ih(6) True by (simp add: Let_def)
    ultimately show ?thesis
      by blast
  next
    case False
    show ?thesis
    proof (cases "MAX_DOWNLOAD_BYTES < total_n + length chunk")
      case True
      have "chunk # rest = [] @ chunk # rest"
        by simp
      moreover have "total_n + sum_list (map length ([] :: bytes list)) \<le> MAX_DOWNLOAD_BYTES"
        using Cons.prems(1) by simp
      moreover have
        "MAX_DOWNLOAD_BYTES < total_n + sum_list (map length ([] :: bytes list)) + length chunk"
        using True by simp
      moreover have "fst (save_stream p (chunk # rest) err total_n w) = TooLarge"
        using True False by (simp add: Let_def)
      moreover have
        "files (snd (save_stream p (chunk # rest) err total_n w)) = (files w)(p := None)"
        using True False by (simp add: Let_def remove_file_def)
      moreover have "log (snd (save_stream p (chunk # rest) err total_n w)) =
         log w @ map (\<lambda>x. Chunk (length x)) ([] @ [chunk]) @ [Remove p]"
        using True False by (simp add: Let_def remove_file_def)
      ultimately show ?thesis
        by blast
    next
      case within: False
      let ?w2 = "append_file p chunk ?w1"
      from within have le: "total_n + length chunk \<le> MAX_DOWNLOAD_BYTES"
        by simp
      from Cons.prems(2) have
        big: "MAX_DOWNLOAD_BYTES < (total_n + length chunk) + sum_list (map length rest)"
        by (simp add: add.assoc)
      from Cons.IH [OF le big, of ?w2] obtain pre c post where
        ih: "rest = pre @ c # post"
          "total_n + length chunk + sum_list (map length pre) \<le> MAX_DOWNLOAD_BYTES"
          "MAX_DOWNLOAD_BYTES < total_n + length chunk + sum_list (map length pre) + length c"
          "fst (save_stream p rest err (total_n + length chunk) ?w2) = TooLarge"
          "files (snd (save_stream p rest err (total_n + length chunk) ?w2)) =
             (files ?w2)(p := None)"
          "log (snd (save_stream p rest err (total_n + length chunk) ?w2)) =
             log ?w2 @ map (\<lambda>x. Chunk (length x)) (pre @ [c]) @ [Remove p]"
        by blast
      have "chunk # rest = (chunk # pre) @ c # post"
        using ih(1) by simp
      moreover have "total_n + sum_list (map length (chunk # pre)) \<le> MAX_DOWNLOAD_BYTES"
        using ih(2) by (simp add: add.assoc)
      moreover have
        "MAX_DOWNLOAD_BYTES < total_n + sum_list (map length (chunk # pre)) + length c"
        using ih(3) by (simp add: add.assoc)
      moreover have "fst (save_stream p (chunk # rest) err total_n w) = TooLarge"
        using ih(4) False within by (simp add: Let_def)
      moreover have
        "files (snd (save_stream p (chunk # rest) err total_n w)) = (files w)(p := None)"
        using ih(5) False within by (simp add: Let_def append_file_def)
      moreover have "log (snd (save_stream p (chunk # rest) err total_n w)) =
         log w @ map (\<lambda>x. Chunk (length x)) ((chunk # pre) @ [c]) @ [Remove p]"
        using ih(6) False within by (simp add: Let_def append_file_def)
      ultimately show ?thesis
        by blast
    qed
  qed
qed

text \<open>Within the cap the loop takes every chunk and does not answer \<open>TooLarge\<close>.\<close>

lemma save_stream_within:
  "total_n + sum_list (map length cs) \<le> MAX_DOWNLOAD_BYTES \<Longrightarrow>
   fst (save_stream p cs err total_n w) \<noteq> TooLarge \<and>
   log (snd (save_stream p cs err total_n w)) = log w @ map (\<lambda>x. Chunk (length x)) cs"
proof (induction cs arbitrary: total_n w)
  case Nil
  then show ?case
    by (simp split: option.splits)
next
  case (Cons chunk rest)
  let ?w1 = "w\<lparr>log := log w @ [Chunk (length chunk)]\<rparr>"
  show ?case
  proof (cases "chunk = []")
    case True
    from Cons.prems True have "total_n + sum_list (map length rest) \<le> MAX_DOWNLOAD_BYTES"
      by simp
    from Cons.IH [OF this, of ?w1] True show ?thesis
      by (simp add: Let_def)
  next
    case False
    from Cons.prems have
      le: "(total_n + length chunk) + sum_list (map length rest) \<le> MAX_DOWNLOAD_BYTES"
      by (simp add: add.assoc)
    then have within: "\<not> MAX_DOWNLOAD_BYTES < total_n + length chunk"
      by simp
    from Cons.IH [OF le, of "append_file p chunk ?w1"] False within show ?thesis
      by (simp add: Let_def append_file_def)
  qed
qed

text \<open>
  C2: on the URL path, for a response without an error status and of an allowed
  content type, the answer is the error \<^verbatim>\<open>Image too large (>5MB)\<close> exactly when the
  bytes of the chunks of the body add up to more than 5 MiB. In that case the handler
  aborts the download in the middle of the stream: it takes the chunks up to the first
  one that brings the count over the cap and no chunk after it; it removes the file of
  this attempt, so that no file is left at its path and no other file has changed; and
  nothing else happens. A download of at most 5 MiB is not answered with this error.
\<close>

theorem download_size_cap:
  assumes "\<not> has_upload req"
    and "u = strip (case form_image_url req of None \<Rightarrow> [] | Some s \<Rightarrow> s)"
    and "startswith u ''http://'' \<or> startswith u ''https://''"
    and "requests_get E u = Response r"
    and "\<not> (400 \<le> status_code r \<and> status_code r < 600)"
    and "ALLOWED_MIME_TO_EXT (header_ctype r) = Some e"
    and "upload_path = in_upload_dir (unique_name E ''url'' (''.'' @ e))"
  shows "if 5 * 1024 * 1024 < sum_list (map length (chunks r))
         then fst (predict E req w) = Inr (error_page ''Image too large (>5MB)'') \<and>
              files (snd (predict E req w)) = (files w)(upload_path := None) \<and>
              (\<exists>pre c post.
                 chunks r = pre @ c # post \<and>
                 sum_list (map length pre) \<le> 5 * 1024 * 1024 \<and>
                 5 * 1024 * 1024 < sum_list (map length pre) + length c \<and>
                 log (snd (predict E req w)) =
                   log w @ [Fetch u, Write upload_path] @
                   map (\<lambda>x. Chunk (length x)) (pre @ [c]) @ [Remove upload_path])
         else fst (predict E req w) \<noteq> Inr (error_page ''Image too large (>5MB)'')"
proof -
  let ?w1 = "w\<lparr>log := log w @ [Fetch u]\<rparr>"
  let ?w2 = "write_file upload_path [] ?w1"
  let ?s = "save_stream upload_path (chunks r) (stream_error r) 0 ?w2"
  from assms(3) have ne: "u \<noteq> []"
    by (auto dest: startswith_nonempty)
  from assms(5) have ok: "raise_for_status r = None"
    by (simp add: raise_for_status_None)
  have "predict E req w = url_branch E u w"
    using assms(1,2) ne by (simp add: predict_no_upload Let_def)
  also have "\<dots> =
    (case fst ?s of
       TooLarge \<Rightarrow> (Inr (error_page ''Image too large (>5MB)''), snd ?s)
     | StreamFailed msg \<Rightarrow> (Inr (error_page (''Failed to fetch URL: '' @ msg)), snd ?s)
     | Completed \<Rightarrow> detect_and_render E upload_path (snd ?s))"
    using assms(3,4,6,7) ok
    by (cases ?s; cases "fst ?s") (simp_all add: url_branch_def Let_def)
  finally have p: "predict E req w =
    (case fst ?s of
       TooLarge \<Rightarrow> (Inr (error_page ''Image too large (>5MB)''), snd ?s)
     | StreamFailed msg \<Rightarrow> (Inr (error_page (''Failed to fetch URL: '' @ msg)), snd ?s)
     | Completed \<Rightarrow> detect_and_render E upload_path (snd ?s))" .
  show ?thesis
  proof (cases "MAX_DOWNLOAD_BYTES < sum_list (map length (chunks r))")
    case True
    from save_stream_abort [of 0 "chunks r" upload_path "stream_error r" ?w2] True
    obtain pre c post where
      s: "chunks r = pre @ c # post"
        "sum_list (map length pre) \<le> MAX_DOWNLOAD_BYTES"
        "MAX_DOWNLOAD_BYTES < sum_list (map length pre) + length c"
        "fst ?s = TooLarge"
        "files (snd ?s) = (files ?w2)(upload_path := None)"
        "log (snd ?s) = log ?w2 @ map (\<lambda>x. Chunk (length x)) (pre @ [c]) @ [Remove upload_path]"
      by auto
    from p s(4) have q: "predict E req w = (Inr (error_page ''Image too large (>5MB)''), snd ?s)"
      by simp
    have f: "files (snd (predict E req w)) = (files w)(upload_path := None)"
      using q s(5) by (simp add: write_file_def)
    have l: "log (snd (predict E req w)) =
      log w @ [Fetch u, Write upload_path] @
      map (\<lambda>x. Chunk (length x)) (pre @ [c]) @ [Remove upload_path]"
      using q s(6) by (simp add: write_file_def)
    from s(1,2,3) l have "\<exists>pre c post.
                 chunks r = pre @ c # post \<and>
                 sum_list (map length pre) \<le> MAX_DOWNLOAD_BYTES \<and>
                 MAX_DOWNLOAD_BYTES < sum_list (map length pre) + length c \<and>
                 log (snd (predict E req w)) =
                   log w @ [Fetch u, Write upload_path] @
                   map (\<lambda>x. Chunk (length x)) (pre @ [c]) @ [Remove upload_path]"
      by blast
    with True q f show ?thesis
      by (simp add: MAX_DOWNLOAD_BYTES_def)
  next
    case False
    then have "fst ?s \<noteq> TooLarge"
      using save_stream_within [of 0 "chunks r" upload_path "stream_error r" ?w2] by simp
    with p have "fst (predict E req w) \<noteq> Inr (error_page ''Image too large (>5MB)'')"
      by (cases "fst ?s") (simp_all add: detect_and_render_not_error error_page_eq)
    with False show ?thesis
      by (simp add: MAX_DOWNLOAD_BYTES_def)
  qed
qed

lemma png_ctype:
  "ALLOWED_MIME_TO_EXT (header_ctype big_response) = Some ''png''"
  "ALLOWED_MIME_TO_EXT (header_ctype small_response) = Some ''png''"
  by (simp_all add: header_ctype_def big_response_def small_response_def py_eval)

lemma demo_url_path:
  "in_upload_dir ''url_1700000000.png'' =
     in_upload_dir (unique_name (demo_env a) ''url'' (''.'' @ ''png''))"
  by (simp add: unique_name_def demo_env_def py_eval)

text \<open>
  The example download, evaluated: the third chunk of the body is never taken.
\<close>

lemma demo_big_download:
  "predict (demo_env (Response big_response)) (url_request ''https://example.com/big.png'')
       empty_world =
     (Inr (error_page ''Image too large (>5MB)''),
      \<lparr>files = Map.empty,
       log = [Fetch ''https://example.com/big.png'',
              Write (in_upload_dir ''url_1700000000.png''),
              Chunk 5242880, Chunk 1,
              Remove (in_upload_dir ''url_1700000000.png'')]\<rparr>)"
  by (simp add: predict_def url_request_def url_branch_def demo_env_def empty_world_def
      big_response_def header_ctype_def unique_name_def write_file_def append_file_def
      remove_file_def py_eval)

theorem download_size_cap_witness:
  "sum_list (map length (chunks big_response)) = 5 * 1024 * 1024 + 11 \<and>
   fst (predict (demo_env (Response big_response)) (url_request ''https://example.com/big.png'') empty_world) =
     Inr (error_page ''Image too large (>5MB)'') \<and>
   files (snd (predict (demo_env (Response big_response)) (url_request ''https://example.com/big.png'') empty_world))
     (in_upload_dir ''url_1700000000.png'') = None \<and>
   log (snd (predict (demo_env (Response big_response)) (url_request ''https://example.com/big.png'') empty_world)) =
     [Fetch ''https://example.com/big.png'', Write (in_upload_dir ''url_1700000000.png''),
      Chunk 5242880, Chunk 1, Remove (in_upload_dir ''url_1700000000.png'')] \<and>
   sum_list (map length (chunks small_response)) = 6 \<and>
   fst (predict (demo_env (Response small_response)) (url_request ''https://example.com/big.png'') empty_world) \<noteq>
     Inr (error_page ''Image too large (>5MB)'')"
proof -
  have 1: "\<not> has_upload (url_request ''https://example.com/big.png'')"
    by (simp add: has_upload_def url_request_def)
  have 2: "''https://example.com/big.png'' =
      strip (case form_image_url (url_request ''https://example.com/big.png'') of None \<Rightarrow> [] | Some s \<Rightarrow> s)"
    by (simp add: url_request_def py_eval)
  have 3: "startswith ''https://example.com/big.png'' ''http://'' \<or>
           startswith ''https://example.com/big.png'' ''https://''"
    by (simp add: startswith_def)
  have 4: "requests_get (demo_env (Response x)) ''https://example.com/big.png'' = Response x" for x
    by (simp add: demo_env_def)
  have 5: "sum_list (map length (chunks big_response)) = 5 * 1024 * 1024 + 11"
    by (simp add: big_response_def)
  have 6: "sum_list (map length (chunks small_response)) = 6"
    by (simp add: small_response_def)
  have 7: "\<not> (400 \<le> status_code big_response \<and> status_code big_response < 600)"
          "\<not> (400 \<le> status_code small_response \<and> status_code small_response < 600)"
    by (simp_all add: big_response_def small_response_def)
  note A = download_size_cap [where w = empty_world, OF 1 2 3 4 7(1) png_ctype(1) demo_url_path]
  note B = download_size_cap [where w = empty_world, OF 1 2 3 4 7(2) png_ctype(2) demo_url_path]
  have a: "fst (predict (demo_env (Response big_response)) (url_request ''https://example.com/big.png'') empty_world) =
     Inr (error_page ''Image too large (>5MB)'') \<and>
   files (snd (predict (demo_env (Response big_response)) (url_request ''https://example.com/big.png'') empty_world))
     (in_upload_dir ''url_1700000000.png'') = None"
    using A 5 by simp
  have b: "fst (predict (demo_env (Response small_response)) (url_request ''https://example.com/big.png'') empty_world) \<noteq>
     Inr (error_page ''Image too large (>5MB)'')"
    using B 6 by simp
  have c: "log (snd (predict (demo_env (Response big_response)) (url_request ''https://example.com/big.png'') empty_world)) =
     [Fetch ''https://example.com/big.png'', Write (in_upload_dir ''url_1700000000.png''),
      Chunk 5242880, Chunk 1, Remove (in_upload_dir ''url_1700000000.png'')]"
    by (simp add: demo_big_download)
  from a b c 5 6 show ?thesis
    by blast
qed

end
